theory Spec2Isabelle
  imports
    Complex_Main
    "HOL-Library.AList"
    "HOL-Library.Char_ord"
    "HOL-Library.List_Lexorder"
    "HOL-Library.Sublist"
begin

section \<open>The EHI loader \<^verbatim>\<open>load_sqlite.py\<close>: a shallow embedding\<close>

text \<open>
  The loader reads one tab-separated file per table, looks for a JSON descriptor of the
  same name, creates one SQLite table per file and inserts the coerced rows.  Python
  strings are modelled as \<^typ>\<open>string\<close>, one \<^typ>\<open>char\<close> per code point, so only
  code points below 256 occur.  Python integers are \<^typ>\<open>int\<close>, exceptions are values
  of a sum type, and the database connection, the directory listing and the files are
  explicit arguments.
\<close>

subsection \<open>Exceptions\<close>

text \<open>
  The exception classes that the loader and the built-ins it calls can raise.  A raised
  exception is its class together with its message, the text of \<^verbatim>\<open>str(e)\<close>; the
  messages of \<^verbatim>\<open>int\<close> and \<^verbatim>\<open>float\<close>, which the loader never reads, are shortened.
  \<^verbatim>\<open>json.JSONDecodeError\<close> is a subclass of \<^verbatim>\<open>ValueError\<close>; every class
  here is a subclass of \<^verbatim>\<open>Exception\<close>.
\<close>

datatype exn_class =
  ValueError | OverflowError | KeyError | AttributeError | JSONDecodeError | DatabaseError

type_synonym exn = "exn_class \<times> string"

fun is_subclass :: "exn_class \<Rightarrow> exn_class \<Rightarrow> bool" where
  "is_subclass JSONDecodeError ValueError = True"
| "is_subclass c d = (c = d)"

text \<open>\<^verbatim>\<open>except (C1, ..., Cn)\<close> handles an exception whose class is a subclass of some \<open>Ci\<close>.\<close>

definition handled_by :: "exn \<Rightarrow> exn_class list \<Rightarrow> bool" where
  "handled_by e cs = list_ex (is_subclass (fst e)) cs"

subsection \<open>Strings\<close>

text \<open>
  \<^verbatim>\<open>str.isspace\<close> on the code points below 256: TAB to CR, FS to US, space, NEL and the
  no-break space.
\<close>

definition py_isspace :: "char \<Rightarrow> bool" where
  "py_isspace c =
     (let n = (of_char c :: nat)
      in (9 \<le> n \<and> n \<le> 13) \<or> (28 \<le> n \<and> n \<le> 32) \<or> n = 133 \<or> n = 160)"

definition rstrip_with :: "(char \<Rightarrow> bool) \<Rightarrow> string \<Rightarrow> string" where
  "rstrip_with p s = rev (dropWhile p (rev s))"

text \<open>\<^verbatim>\<open>s.strip()\<close>\<close>

definition strip :: "string \<Rightarrow> string" where
  "strip s = rstrip_with py_isspace (dropWhile py_isspace s)"

text \<open>\<^verbatim>\<open>s.rstrip('\r')\<close>\<close>

definition rstrip_cr :: "string \<Rightarrow> string" where
  "rstrip_cr s = rstrip_with (\<lambda>c. c = CHR 0x0D) s"

text \<open>\<^verbatim>\<open>s.endswith(t)\<close>\<close>

definition endswith :: "string \<Rightarrow> string \<Rightarrow> bool" where
  "endswith s t = suffix t s"

text \<open>
  \<^verbatim>\<open>s.replace(old, new)\<close> for a non-empty \<open>old\<close>: one pass from the left, every
  occurrence found is replaced and the scan goes on behind it.
\<close>

fun replace :: "string \<Rightarrow> string \<Rightarrow> string \<Rightarrow> string" where
  "replace old new [] = []"
| "replace old new (c # cs) =
     (if old \<noteq> [] \<and> prefix old (c # cs)
      then new @ replace old new (drop (length old - 1) cs)
      else c # replace old new cs)"

text \<open>\<^verbatim>\<open>sep.join(xs)\<close>\<close>

fun join :: "string \<Rightarrow> string list \<Rightarrow> string" where
  "join sep [] = []"
| "join sep [x] = x"
| "join sep (x # y # ys) = x @ sep @ join sep (y # ys)"

definition quoted :: "string \<Rightarrow> string" where
  "quoted s = [CHR 0x22] @ s @ [CHR 0x22]"

subsection \<open>The built-ins \<^verbatim>\<open>int\<close> and \<^verbatim>\<open>float\<close>\<close>

definition is_digit :: "char \<Rightarrow> bool" where
  "is_digit c = (CHR ''0'' \<le> c \<and> c \<le> CHR ''9'')"

definition digit_val :: "char \<Rightarrow> int" where
  "digit_val c = of_char c - 48"

definition digits_value :: "string \<Rightarrow> int" where
  "digits_value ds = foldl (\<lambda>a c. 10 * a + digit_val c) 0 ds"

text \<open>An optional sign in front: whether it is a minus, and the rest.\<close>

fun split_sign :: "string \<Rightarrow> bool \<times> string" where
  "split_sign [] = (False, [])"
| "split_sign (c # cs) =
     (if c = CHR ''-'' then (True, cs)
      else if c = CHR ''+'' then (False, cs)
      else (False, c # cs))"

text \<open>
  The digits of an integer literal: a digit first and last, single underscores only
  between two digits.
\<close>

fun valid_int_body :: "string \<Rightarrow> bool" where
  "valid_int_body [] = False"
| "valid_int_body [c] = is_digit c"
| "valid_int_body (c # d # cs) =
     (if is_digit c
      then (if d = CHR ''_'' then valid_int_body cs else valid_int_body (d # cs))
      else False)"

text \<open>
  CPython (3.11 and later) refuses to convert a decimal string of more than 4300 digits,
  with a \<^verbatim>\<open>ValueError\<close>.
\<close>

definition int_max_str_digits :: nat where
  "int_max_str_digits = 4300"

text \<open>\<^verbatim>\<open>int(s)\<close> for a string \<open>s\<close>, base 10.\<close>

definition py_int :: "string \<Rightarrow> exn + int" where
  "py_int s =
     (let (neg, body) = split_sign (strip s);
          ds = filter is_digit body
      in if \<not> valid_int_body body
         then Inl (ValueError, ''invalid literal for int() with base 10'')
         else if length ds > int_max_str_digits
         then Inl (ValueError, ''Exceeds the limit for integer string conversion'')
         else Inr (if neg then - digits_value ds else digits_value ds))"

text \<open>
  A Python float is an IEEE 754 binary64 value: a finite rational (with a separate
  negative zero), an infinity or a NaN.
\<close>

datatype pyfloat = Finite rat | NegZero | PosInf | NegInf | NaN

definition pow_int :: "rat \<Rightarrow> int \<Rightarrow> rat" where
  "pow_int b e = (if 0 \<le> e then b ^ nat e else 1 / b ^ nat (- e))"

text \<open>The number of binary digits of a positive integer.\<close>

function bit_length :: "int \<Rightarrow> int" where
  "bit_length n = (if n \<le> 0 then 0 else 1 + bit_length (n div 2))"
  by pat_completeness auto
termination
  by (relation "measure nat") auto

declare bit_length.simps [simp del]

text \<open>The integer \<open>e\<close> with \<open>2^e \<le> a < 2^(e+1)\<close>, for a positive rational \<open>a\<close>.\<close>

definition floor_log2 :: "rat \<Rightarrow> int" where
  "floor_log2 a =
     (let (n, d) = quotient_of a;
          k = bit_length n - bit_length d
      in if pow_int 2 k \<le> a then k else k - 1)"

definition round_half_even :: "rat \<Rightarrow> int" where
  "round_half_even x =
     (let f = \<lfloor>x\<rfloor>; r = x - of_int f
      in if r < 1 / 2 then f
         else if 1 / 2 < r then f + 1
         else if even f then f else f + 1)"

definition signed_zero :: "bool \<Rightarrow> pyfloat" where
  "signed_zero neg = (if neg then NegZero else Finite 0)"

definition signed_inf :: "bool \<Rightarrow> pyfloat" where
  "signed_inf neg = (if neg then NegInf else PosInf)"

text \<open>
  The binary64 value nearest to the sign and magnitude given (ties to even): 53
  significant bits, exponents from \<open>-1022\<close>, overflow to an infinity.
\<close>

definition double_of :: "bool \<Rightarrow> rat \<Rightarrow> pyfloat" where
  "double_of neg a =
     (if a = 0 then signed_zero neg
      else
        let e = max (floor_log2 a) (- 1022);
            ulp = pow_int 2 (e - 52);
            v = of_int (round_half_even (a / ulp)) * ulp
        in if 2 ^ 1024 \<le> v then signed_inf neg
           else if v = 0 then signed_zero neg
           else Finite (if neg then - v else v))"

text \<open>
  \<^verbatim>\<open>float(s)\<close> accepts underscores only between two digits; they are removed before
  the number is read.  The first argument is the previous character.
\<close>

fun drop_underscores :: "char \<Rightarrow> string \<Rightarrow> string option" where
  "drop_underscores prev [] = (if prev = CHR ''_'' then None else Some [])"
| "drop_underscores prev (c # cs) =
     (if c = CHR ''_''
      then (if is_digit prev then drop_underscores c cs else None)
      else if prev = CHR ''_'' \<and> \<not> is_digit c then None
      else map_option ((#) c) (drop_underscores c cs))"

definition lower :: "char \<Rightarrow> char" where
  "lower c = (if CHR ''A'' \<le> c \<and> c \<le> CHR ''Z'' then char_of (of_char c + (32::nat)) else c)"

text \<open>The exponent part: empty, or \<open>e\<close>/\<open>E\<close>, an optional sign and at least one digit.\<close>

definition parse_exponent :: "string \<Rightarrow> int option" where
  "parse_exponent s =
     (case s of
        [] \<Rightarrow> Some 0
      | c # t \<Rightarrow>
          if c = CHR ''e'' \<or> c = CHR ''E''
          then (let (eneg, ds) = split_sign t
                in if ds \<noteq> [] \<and> list_all is_digit ds
                   then Some (if eneg then - digits_value ds else digits_value ds)
                   else None)
          else None)"

definition parse_float :: "string \<Rightarrow> pyfloat option" where
  "parse_float s =
     (let (neg, r) = split_sign s;
          l = map lower r
      in if l = ''inf'' \<or> l = ''infinity'' then Some (signed_inf neg)
         else if l = ''nan'' then Some NaN
         else
           let d1 = takeWhile is_digit r;
               r1 = dropWhile is_digit r;
               (d2, r2) = (case r1 of
                             [] \<Rightarrow> ([], r1)
                           | c # t \<Rightarrow> if c = CHR ''.''
                                      then (takeWhile is_digit t, dropWhile is_digit t)
                                      else ([], r1))
           in if d1 @ d2 = [] then None
              else (case parse_exponent r2 of
                      None \<Rightarrow> None
                    | Some e \<Rightarrow>
                        Some (double_of neg
                                (of_int (digits_value (d1 @ d2))
                                 * pow_int 10 (e - int (length d2))))))"

text \<open>\<^verbatim>\<open>float(s)\<close> for a string \<open>s\<close>.\<close>

definition py_float :: "string \<Rightarrow> exn + pyfloat" where
  "py_float s =
     (case drop_underscores (CHR 0x00) (strip s) of
        None \<Rightarrow> Inl (ValueError, ''could not convert string to float'')
      | Some t \<Rightarrow>
          (case parse_float t of
             None \<Rightarrow> Inl (ValueError, ''could not convert string to float'')
           | Some f \<Rightarrow> Inr f))"

text \<open>\<^verbatim>\<open>int(f)\<close> for a float \<open>f\<close>: truncation towards zero.\<close>

fun int_of_float :: "pyfloat \<Rightarrow> exn + int" where
  "int_of_float (Finite q) = Inr (if 0 \<le> q then \<lfloor>q\<rfloor> else \<lceil>q\<rceil>)"
| "int_of_float NegZero = Inr 0"
| "int_of_float PosInf = Inl (OverflowError, ''cannot convert float infinity to integer'')"
| "int_of_float NegInf = Inl (OverflowError, ''cannot convert float infinity to integer'')"
| "int_of_float NaN = Inl (ValueError, ''cannot convert float NaN to integer'')"

text \<open>\<^verbatim>\<open>f == n\<close> for a float \<open>f\<close> and an integer \<open>n\<close>: equality of the exact values.\<close>

fun float_eq_int :: "pyfloat \<Rightarrow> int \<Rightarrow> bool" where
  "float_eq_int (Finite q) n = (q = of_int n)"
| "float_eq_int NegZero n = (n = 0)"
| "float_eq_int f n = False"

subsection \<open>The type map and the value coercer\<close>

definition TYPE_MAP :: "(string \<times> string) list" where
  "TYPE_MAP =
     [(''VARCHAR'', ''TEXT''),
      (''NUMERIC'', ''NUMERIC''),
      (''INTEGER'', ''INTEGER''),
      (''FLOAT'', ''REAL''),
      (''DATETIME'', ''TEXT''),
      (''DATETIME (Local)'', ''TEXT''),
      (''DATETIME (UTC)'', ''TEXT''),
      (''DATETIME (Attached)'', ''TEXT'')]"

text \<open>\<^verbatim>\<open>TYPE_MAP.get(label, 'TEXT')\<close>\<close>

definition type_map_get :: "string \<Rightarrow> string" where
  "type_map_get label = (case map_of TYPE_MAP label of None \<Rightarrow> ''TEXT'' | Some t \<Rightarrow> t)"

text \<open>What a cell becomes: \<^verbatim>\<open>None\<close>, an integer, a float or a string.\<close>

datatype pyval = PNone | PInt int | PFloat pyfloat | PStr string

text \<open>
  \<^verbatim>\<open>coerce(value, col_type)\<close>; \<open>value\<close> is \<^verbatim>\<open>None\<close> or a string.  The body of the
  second \<^verbatim>\<open>try\<close> is \<open>numeric_try\<close>.
\<close>

definition numeric_try :: "string \<Rightarrow> exn + pyval" where
  "numeric_try v =
     (case py_float v of
        Inl e \<Rightarrow> Inl e
      | Inr f \<Rightarrow>
          (case int_of_float f of
             Inl e \<Rightarrow> Inl e
           | Inr n \<Rightarrow>
               if float_eq_int f n \<and> CHR ''.'' \<notin> set v
               then map_sum id PInt (int_of_float f)
               else Inr (PFloat f)))"

definition coerce :: "string option \<Rightarrow> string \<Rightarrow> exn + pyval" where
  "coerce value col_type =
     (case value of
        None \<Rightarrow> Inr PNone
      | Some raw \<Rightarrow>
          if strip raw = [] then Inr PNone
          else
            let v = strip raw
            in if col_type = ''INTEGER''
               then (case py_int v of
                       Inr n \<Rightarrow> Inr (PInt n)
                     | Inl e \<Rightarrow>
                         if handled_by e [ValueError, OverflowError]
                         then (case py_float v of
                                 Inl e' \<Rightarrow> Inr (PStr v)
                               | Inr f \<Rightarrow>
                                   (case int_of_float f of
                                      Inl e' \<Rightarrow> Inr (PStr v)
                                    | Inr n \<Rightarrow> Inr (PInt n)))
                         else Inl e)
               else if col_type = ''NUMERIC'' \<or> col_type = ''REAL''
               then (case numeric_try v of
                       Inr r \<Rightarrow> Inr r
                     | Inl e \<Rightarrow>
                         if handled_by e [ValueError, OverflowError]
                         then Inr (PStr v)
                         else Inl e)
               else Inr (PStr v))"

subsection \<open>Helpers for exceptions and dictionaries\<close>

text \<open>A comprehension or loop whose body may raise: the first exception ends it.\<close>

fun mapE :: "('a \<Rightarrow> 'e + 'b) \<Rightarrow> 'a list \<Rightarrow> 'e + 'b list" where
  "mapE f [] = Inr []"
| "mapE f (x # xs) =
     (case f x of
        Inl e \<Rightarrow> Inl e
      | Inr y \<Rightarrow> (case mapE f xs of Inl e \<Rightarrow> Inl e | Inr ys \<Rightarrow> Inr (y # ys)))"

text \<open>\<^verbatim>\<open>d.get(key, default)\<close> on a field that is present (\<open>Some\<close>) or missing.\<close>

definition get_or :: "'a \<Rightarrow> 'a option \<Rightarrow> 'a" where
  "get_or d x = (case x of None \<Rightarrow> d | Some v \<Rightarrow> v)"

text \<open>The text of a \<^verbatim>\<open>KeyError\<close> for a string key: the key in single quotes.\<close>

definition key_error :: "string \<Rightarrow> exn" where
  "key_error k = (KeyError, [CHR 0x27] @ k @ [CHR 0x27])"

subsection \<open>Schema descriptors\<close>

text \<open>
  A parsed descriptor is a JSON object with the optional keys \<^verbatim>\<open>description\<close>,
  \<^verbatim>\<open>primaryKey\<close> and \<^verbatim>\<open>columns\<close>; a key that is present holds a value of the
  shape the interface describes (text, a list of objects).  Inside a column object and a
  primary-key object each key may again be missing (\<open>col_label\<close> is the key
  \<^verbatim>\<open>type\<close>).  \<open>other_keys\<close> are the names of any
  further top-level keys: the loader never reads them, but they make the object non-empty.
\<close>

record column =
  col_name :: "string option"
  col_label :: "string option"
  col_description :: "string option"

record schema =
  description :: "string option"
  primaryKey :: "string option list option"
  columns :: "column list option"
  other_keys :: "string list"

text \<open>
  \<^verbatim>\<open>if schema:\<close> holds for a descriptor that is neither \<^verbatim>\<open>None\<close> nor the empty
  object \<^verbatim>\<open>{}\<close>; \<open>truthy\<close> yields the descriptor then.
\<close>

definition truthy :: "schema option \<Rightarrow> schema option" where
  "truthy sch =
     (case sch of
        None \<Rightarrow> None
      | Some s \<Rightarrow>
          if description s \<noteq> None \<or> primaryKey s \<noteq> None \<or> columns s \<noteq> None
             \<or> other_keys s \<noteq> []
          then Some s else None)"

text \<open>
  The three replacement characters for a double hyphen (code points U+00E2, U+20AC and
  U+201D in the source) are written as their Windows-1252 bytes.
\<close>

definition DASH :: string where
  "DASH = [CHR 0xE2, CHR 0x80, CHR 0x94]"

definition esc :: "string \<Rightarrow> string" where
  "esc text =
     (if text = [] then []
      else replace [CHR 0x0D] [] (replace [CHR 0x0A] '' '' (replace ''--'' DASH text)))"

text \<open>\<^verbatim>\<open>TYPE_MAP.get(col.get('type', '').strip(), 'TEXT')\<close>\<close>

definition column_type :: "column \<Rightarrow> string" where
  "column_type col = type_map_get (strip (get_or [] (col_label col)))"

subsection \<open>The files and the database\<close>

text \<open>
  What a descriptor path holds: no file, a file of zero bytes, a file that
  \<^verbatim>\<open>json.load\<close> rejects (with the message of the error), or a parsed descriptor.
\<close>

datatype schema_file = NoFile | EmptyFile | Malformed string | Parsed schema

text \<open>
  The file system as the loader sees it: the names in the \<^verbatim>\<open>tsv\<close> directory, the
  descriptor at a path, and the records that \<^verbatim>\<open>csv.reader\<close> yields for the file at a
  path (the first record is the header line).
\<close>

record files =
  listdir_tsv :: "string list"
  schema_at :: "string \<Rightarrow> schema_file"
  csv_at :: "string \<Rightarrow> string list list"

text \<open>
  The connection as the loader sees it: whether a statement raises, and with which
  message.  \<open>ddl_error\<close> answers for \<^verbatim>\<open>executescript\<close> and for the \<^verbatim>\<open>execute\<close> of a
  DROP or CREATE statement, \<open>bulk_error\<close> for \<^verbatim>\<open>executemany\<close> on a batch, and
  \<open>row_error\<close> for the \<^verbatim>\<open>execute\<close> of the insert statement on the row at an index.
  An answer depends on the statement and its arguments only; the properties below hold
  for every such connection.
\<close>

record db =
  ddl_error :: "string \<Rightarrow> string option"
  bulk_error :: "string \<Rightarrow> pyval list list \<Rightarrow> string option"
  row_error :: "string \<Rightarrow> nat \<Rightarrow> pyval list \<Rightarrow> string option"

definition SCHEMA_DIR :: string where
  "SCHEMA_DIR = ''schemas''"

definition TSV_DIR :: string where
  "TSV_DIR = ''tsv''"

text \<open>\<^verbatim>\<open>os.path.join(dir, file)\<close> for a relative file name.\<close>

definition path_join :: "string \<Rightarrow> string \<Rightarrow> string" where
  "path_join d f = d @ ''/'' @ f"

definition load_schema :: "files \<Rightarrow> string \<Rightarrow> exn + schema option" where
  "load_schema fs name =
     (let path = path_join SCHEMA_DIR (name @ ''.json'')
      in case schema_at fs path of
           NoFile \<Rightarrow> Inr None
         | EmptyFile \<Rightarrow> Inr None
         | Malformed msg \<Rightarrow> Inl (JSONDecodeError, msg)
         | Parsed s \<Rightarrow> Inr (Some s))"

subsection \<open>Table definition\<close>

text \<open>\<^verbatim>\<open>[p['columnName'] for p in schema.get('primaryKey', [])]\<close>\<close>

definition pk_columns :: "schema \<Rightarrow> exn + string list" where
  "pk_columns s =
     mapE (\<lambda>p. case p of None \<Rightarrow> Inl (key_error ''columnName'') | Some c \<Rightarrow> Inr c)
       (get_or [] (primaryKey s))"

text \<open>The line of the DDL for one column.\<close>

definition col_def :: "string \<Rightarrow> string \<Rightarrow> string \<Rightarrow> string \<Rightarrow> string" where
  "col_def cname ctype comma cdesc =
     ''  '' @ quoted cname @ '' '' @ ctype @ comma @ '' -- '' @ cdesc"

text \<open>
  The loop over \<^verbatim>\<open>enumerate(columns)\<close> in \<^verbatim>\<open>create_table\<close>
  (\<^verbatim>\<open>enumerate(xs)\<close> is \<^term>\<open>enumerate 0 xs\<close>): \<open>n\<close> is
  \<^verbatim>\<open>len(columns)\<close>, \<open>has_pk\<close> the truth value of \<^verbatim>\<open>pk_cols\<close>, and the last argument
  holds \<^verbatim>\<open>col_defs\<close> and \<^verbatim>\<open>col_names\<close>.
\<close>

fun columns_loop ::
  "nat \<Rightarrow> bool \<Rightarrow> (nat \<times> column) list \<Rightarrow> string list \<times> string list
   \<Rightarrow> exn + string list \<times> string list" where
  "columns_loop n has_pk [] acc = Inr acc"
| "columns_loop n has_pk ((i, col) # rest) (col_defs, col_names) =
     (case col_name col of
        None \<Rightarrow> Inl (key_error ''name'')
      | Some cname \<Rightarrow>
          let ctype = column_type col;
              cdesc = esc (get_or [] (col_description col));
              is_last = (i = n - 1 \<and> \<not> has_pk);
              comma = (if is_last then [] else '','')
          in columns_loop n has_pk rest
               (col_defs @ [col_def cname ctype comma cdesc], col_names @ [cname]))"

text \<open>
  The statements that \<^verbatim>\<open>create_table\<close> builds, before it runs them: the lines of the
  columns, the script and the column names it will return.
\<close>

definition create_table_sql ::
  "string \<Rightarrow> schema \<Rightarrow> exn + string list \<times> string \<times> string list" where
  "create_table_sql name s =
     (let desc = esc (get_or [] (description s))
      in case pk_columns s of
           Inl e \<Rightarrow> Inl e
         | Inr pk_cols \<Rightarrow>
             let cols = get_or [] (columns s)
             in (case columns_loop (length cols) (pk_cols \<noteq> []) (enumerate 0 cols)
                        ([], []) of
                  Inl e \<Rightarrow> Inl e
                | Inr (col_defs, col_names) \<Rightarrow>
                    let body = join [CHR 0x0A] col_defs;
                        pk = (if pk_cols \<noteq> []
                              then '','' @ [CHR 0x0A] @ ''  PRIMARY KEY (''
                                   @ join '', '' (map quoted pk_cols) @ '')''
                              else []);
                        sql = ''CREATE TABLE '' @ quoted name @ '' ( -- '' @ desc @ [CHR 0x0A]
                              @ body @ pk @ [CHR 0x0A] @ '');''
                    in Inr (col_defs,
                            ''DROP TABLE IF EXISTS '' @ quoted name @ '';'' @ [CHR 0x0A] @ sql,
                            col_names)))"

definition create_table :: "db \<Rightarrow> string \<Rightarrow> schema \<Rightarrow> exn + string list" where
  "create_table conn name s =
     (case create_table_sql name s of
        Inl e \<Rightarrow> Inl e
      | Inr (col_defs, script, col_names) \<Rightarrow>
          (case ddl_error conn script of
             Some msg \<Rightarrow> Inl (DatabaseError, msg)
           | None \<Rightarrow> Inr col_names))"

text \<open>The column definitions of the fallback table, one per header field.\<close>

definition header_col_defs :: "string list \<Rightarrow> string list" where
  "header_col_defs header = map (\<lambda>h. quoted h @ '' TEXT'') header"

definition header_create_sql :: "string \<Rightarrow> string list \<Rightarrow> string" where
  "header_create_sql name header =
     ''CREATE TABLE '' @ quoted name @ '' ('' @ join '', '' (header_col_defs header) @ '')''"

definition create_table_from_header :: "db \<Rightarrow> string \<Rightarrow> string list \<Rightarrow> exn + string list" where
  "create_table_from_header conn name header =
     (case ddl_error conn (''DROP TABLE IF EXISTS '' @ quoted name) of
        Some msg \<Rightarrow> Inl (DatabaseError, msg)
      | None \<Rightarrow>
          (case ddl_error conn (header_create_sql name header) of
             Some msg \<Rightarrow> Inl (DatabaseError, msg)
           | None \<Rightarrow> Inr header))"

subsection \<open>The row reader\<close>

text \<open>A row of a table: a dictionary from column names to text or \<^verbatim>\<open>None\<close>.\<close>

type_synonym row = "string \<rightharpoonup> string option"

text \<open>
  What \<^verbatim>\<open>csv.DictReader\<close> makes of one record: the dictionary of the header fields
  (in insertion order; a repeated key keeps its place and takes the later value, a field
  the record lacks is \<^verbatim>\<open>None\<close>), and the list of surplus fields that it stores under the
  key \<^verbatim>\<open>None\<close> when the record is longer than the header (empty when there is no such
  entry).
\<close>

definition dict_row ::
  "string list \<Rightarrow> string list \<Rightarrow> (string \<times> string option) list \<times> string list" where
  "dict_row fieldnames r =
     (let d = foldl (\<lambda>d (k, v). AList.update k (Some v) d) [] (zip fieldnames r);
          lf = length fieldnames;
          lr = length r
      in if lf < lr then (d, drop lf r)
         else if lr < lf then (foldl (\<lambda>d k. AList.update k None d) d (drop lr fieldnames), [])
         else (d, []))"

text \<open>
  The inner loop of \<^verbatim>\<open>load_tsv_rows\<close> over \<^verbatim>\<open>row.items()\<close>.  The entry under the
  key \<^verbatim>\<open>None\<close> comes last; its value is a non-empty list, on which \<^verbatim>\<open>rstrip\<close> raises.
\<close>

definition clean_row :: "(string \<times> string option) list \<times> string list \<Rightarrow> exn + row" where
  "clean_row dr =
     (case dr of (d, surplus) \<Rightarrow>
        if surplus \<noteq> []
        then Inl (AttributeError,
                  [CHR 0x27] @ ''list'' @ [CHR 0x27] @ '' object has no attribute ''
                  @ [CHR 0x27] @ ''rstrip'' @ [CHR 0x27])
        else Inr (foldl (\<lambda>cleaned (k, v). cleaned(rstrip_cr k \<mapsto> map_option rstrip_cr v))
                    Map.empty d))"

definition load_tsv_rows :: "files \<Rightarrow> string \<Rightarrow> exn + string list \<times> row list" where
  "load_tsv_rows fs tsv_path =
     (let recs = csv_at fs tsv_path;
          fieldnames = (case recs of [] \<Rightarrow> None | h # rest \<Rightarrow> Some h);
          header0 = get_or [] fieldnames;
          header = (if header0 \<noteq> [] \<and> endswith (last header0) [CHR 0x0D]
                    then butlast header0 @ [rstrip_cr (last header0)]
                    else header0);
          dicts = (case recs of
                     [] \<Rightarrow> []
                   | h # rest \<Rightarrow> map (dict_row h) (filter (\<lambda>r. r \<noteq> []) rest))
      in case mapE clean_row dicts of
           Inl e \<Rightarrow> Inl e
         | Inr rows \<Rightarrow> Inr (header, rows))"

subsection \<open>The bulk loader\<close>

text \<open>The counters and the error list of \<^verbatim>\<open>main\<close>.\<close>

record run_state =
  tables_ok :: nat
  total_rows :: nat
  errors :: "string list"

text \<open>\<^verbatim>\<open>name = tsv_file.replace('.tsv', '')\<close>\<close>

definition table_name :: "string \<Rightarrow> string" where
  "table_name tsv_file = replace ''.tsv'' [] tsv_file"

text \<open>The loop that fills \<^verbatim>\<open>col_types\<close> from the descriptor's columns.\<close>

fun col_types_loop :: "column list \<Rightarrow> (string \<rightharpoonup> string) \<Rightarrow> exn + (string \<rightharpoonup> string)" where
  "col_types_loop [] col_types = Inr col_types"
| "col_types_loop (col # rest) col_types =
     (case col_name col of
        None \<Rightarrow> Inl (key_error ''name'')
      | Some cname \<Rightarrow> col_types_loop rest (col_types(cname \<mapsto> column_type col)))"

text \<open>The inner loop over \<^verbatim>\<open>schema_cols\<close> that builds the \<^verbatim>\<open>values\<close> of one row.\<close>

definition row_values :: "string list \<Rightarrow> (string \<rightharpoonup> string) \<Rightarrow> row \<Rightarrow> exn + pyval list" where
  "row_values schema_cols col_types r =
     mapE (\<lambda>col. coerce (get_or (Some []) (r col)) (get_or ''TEXT'' (col_types col)))
       schema_cols"

definition insert_sql :: "string \<Rightarrow> string list \<Rightarrow> string" where
  "insert_sql name schema_cols =
     (let placeholders = join '', '' (replicate (length schema_cols) ''?'');
          col_list = join '', '' (map quoted schema_cols)
      in ''INSERT OR REPLACE INTO '' @ quoted name @ '' ('' @ col_list @ '') VALUES (''
         @ placeholders @ '')'')"

text \<open>
  The row-by-row loop after a failed bulk insert, over \<^verbatim>\<open>enumerate(batch)\<close>; the
  last argument holds \<^verbatim>\<open>inserted\<close> and \<^verbatim>\<open>errors\<close>.
\<close>

fun fallback_loop ::
  "db \<Rightarrow> string \<Rightarrow> string \<Rightarrow> (nat \<times> pyval list) list \<Rightarrow> nat \<times> string list
   \<Rightarrow> nat \<times> string list" where
  "fallback_loop conn name sql [] acc = acc"
| "fallback_loop conn name sql ((i, vals) # rest) (inserted, errs) =
     (case row_error conn sql i vals of
        None \<Rightarrow> fallback_loop conn name sql rest (inserted + 1, errs)
      | Some e2 \<Rightarrow>
          fallback_loop conn name sql rest
            (inserted,
             if inserted = 0 \<and> i = 0 then errs @ [name @ '': INSERT row 0: '' @ e2] else errs))"

text \<open>The last \<^verbatim>\<open>try\<close> of the loop body: the bulk insert and its fallback.\<close>

definition insert_batch :: "db \<Rightarrow> string \<Rightarrow> string \<Rightarrow> pyval list list \<Rightarrow> run_state \<Rightarrow> run_state" where
  "insert_batch conn name sql batch st =
     (case bulk_error conn sql batch of
        None \<Rightarrow> st\<lparr>tables_ok := tables_ok st + 1, total_rows := total_rows st + length batch\<rparr>
      | Some e \<Rightarrow>
          (case fallback_loop conn name sql (enumerate 0 batch) (0, errors st) of
             (inserted, errs) \<Rightarrow>
               st\<lparr>tables_ok := (if 0 < inserted then tables_ok st + 1 else tables_ok st),
                  total_rows := total_rows st + inserted,
                  errors := errs\<rparr>))"

text \<open>
  The body of the loop over \<^verbatim>\<open>tsv_files\<close> up to the batch: it ends with an entry
  for the error list (the two \<^verbatim>\<open>continue\<close> after \<^verbatim>\<open>errors.append\<close>), with an empty
  table, or with the name, the insert statement and the batch to insert.  An exception
  that the body does not handle leaves \<^verbatim>\<open>main\<close>.
\<close>

datatype prepared = Skipped string | EmptyTable | Batch string string "pyval list list"

definition prepare_table :: "files \<Rightarrow> db \<Rightarrow> string \<Rightarrow> exn + prepared" where
  "prepare_table fs conn tsv_file =
     (let name = table_name tsv_file;
          tsv_path = path_join TSV_DIR tsv_file
      in case load_schema fs name of
           Inl e \<Rightarrow> Inl e
         | Inr sch \<Rightarrow>
        (case load_tsv_rows fs tsv_path of
           Inl e \<Rightarrow> Inl e
         | Inr (header, rows) \<Rightarrow>
        if header = [] then Inr (Skipped (name @ '': empty TSV''))
        else
        (case (case truthy sch of
                 Some s \<Rightarrow> col_types_loop (get_or [] (columns s)) Map.empty
               | None \<Rightarrow> Inr Map.empty) of
           Inl e \<Rightarrow> Inl e
         | Inr col_types \<Rightarrow>
        (case (case truthy sch of
                 Some s \<Rightarrow> create_table conn name s
               | None \<Rightarrow> create_table_from_header conn name header) of
           Inl e \<Rightarrow> Inr (Skipped (name @ '': CREATE failed: '' @ snd e))
         | Inr schema_cols \<Rightarrow>
        if rows = [] then Inr EmptyTable
        else
        (case mapE (row_values schema_cols col_types) rows of
           Inl e \<Rightarrow> Inl e
         | Inr batch \<Rightarrow> Inr (Batch name (insert_sql name schema_cols) batch))))))"

definition main_loop_body :: "files \<Rightarrow> db \<Rightarrow> run_state \<Rightarrow> string \<Rightarrow> exn + run_state" where
  "main_loop_body fs conn st tsv_file =
     (case prepare_table fs conn tsv_file of
        Inl e \<Rightarrow> Inl e
      | Inr (Skipped entry) \<Rightarrow> Inr (st\<lparr>errors := errors st @ [entry]\<rparr>)
      | Inr EmptyTable \<Rightarrow> Inr (st\<lparr>tables_ok := tables_ok st + 1\<rparr>)
      | Inr (Batch name sql batch) \<Rightarrow> Inr (insert_batch conn name sql batch st))"

fun main_loop :: "files \<Rightarrow> db \<Rightarrow> string list \<Rightarrow> run_state \<Rightarrow> exn + run_state" where
  "main_loop fs conn [] st = Inr st"
| "main_loop fs conn (tsv_file # rest) st =
     (case main_loop_body fs conn st tsv_file of
        Inl e \<Rightarrow> Inl e
      | Inr st' \<Rightarrow> main_loop fs conn rest st')"

text \<open>\<^verbatim>\<open>sorted(f for f in os.listdir(TSV_DIR) if f.endswith('.tsv'))\<close>\<close>

definition tsv_files :: "files \<Rightarrow> string list" where
  "tsv_files fs = sort (filter (\<lambda>f. endswith f ''.tsv'') (listdir_tsv fs))"

text \<open>
  \<^verbatim>\<open>main\<close>, from the directory listing to the three values it reports: the exception
  that ends the run, or the counters and the error list.  Opening the database before
  the loop, and the commit, the spot checks and the printing after it, are left out.
\<close>

definition main :: "files \<Rightarrow> db \<Rightarrow> exn + run_state" where
  "main fs conn =
     main_loop fs conn (tsv_files fs) \<lparr>tables_ok = 0, total_rows = 0, errors = []\<rparr>"

subsection \<open>A database that rejects integers beyond 64 bits\<close>

text \<open>
  An instance of the connection for concrete runs.  SQLite stores integers in 64 bits
  and \<^verbatim>\<open>sqlite3\<close> raises on a Python integer outside that range; every other
  statement succeeds.
\<close>

definition fits_int64 :: "pyval \<Rightarrow> bool" where
  "fits_int64 v = (case v of PInt n \<Rightarrow> - (2 ^ 63) \<le> n \<and> n < 2 ^ 63 | _ \<Rightarrow> True)"

definition TOO_LARGE :: string where
  "TOO_LARGE = ''Python int too large to convert to SQLite INTEGER''"

definition int64_db :: db where
  "int64_db =
     \<lparr>ddl_error = (\<lambda>sql. None),
      bulk_error = (\<lambda>sql batch. if list_all (list_all fits_int64) batch then None
                                else Some TOO_LARGE),
      row_error = (\<lambda>sql i vals. if list_all fits_int64 vals then None else Some TOO_LARGE)\<rparr>"

subsection \<open>Per-table counts\<close>

text \<open>
  The number of rows of a batch that the database accepts: the whole batch when the bulk
  insert succeeds, else the rows whose own insert succeeds.
\<close>

definition accepted_rows :: "db \<Rightarrow> string \<Rightarrow> pyval list list \<Rightarrow> nat" where
  "accepted_rows conn sql batch =
     (if bulk_error conn sql batch = None then length batch
      else length (filter (\<lambda>(i, vals). row_error conn sql i vals = None)
                     (enumerate 0 batch)))"

text \<open>
  The count of rows inserted for one source file: the accepted rows of its batch, and
  none for a table that is skipped or empty.
\<close>

definition table_inserted :: "files \<Rightarrow> db \<Rightarrow> string \<Rightarrow> nat" where
  "table_inserted fs conn tsv_file =
     (case prepare_table fs conn tsv_file of
        Inr (Batch name sql batch) \<Rightarrow> accepted_rows conn sql batch
      | _ \<Rightarrow> 0)"

subsection \<open>Concrete inputs\<close>

text \<open>A descriptor with the single column \<^verbatim>\<open>ID\<close> of type \<^verbatim>\<open>INTEGER\<close>.\<close>

definition id_schema :: schema where
  "id_schema =
     \<lparr>description = None, primaryKey = None,
      columns = Some [\<lparr>col_name = Some ''ID'', col_label = Some ''INTEGER'',
                       col_description = None\<rparr>],
      other_keys = []\<rparr>"

text \<open>
  One table \<^verbatim>\<open>T\<close> with that descriptor and two rows; the second holds \<open>2^63\<close>, which
  SQLite cannot store.
\<close>

definition overflow_files :: files where
  "overflow_files =
     \<lparr>listdir_tsv = [''T.tsv''],
      schema_at = (\<lambda>p. if p = ''schemas/T.json'' then Parsed id_schema else NoFile),
      csv_at = (\<lambda>p. if p = ''tsv/T.tsv''
                      then [[''ID''], [''1''], [''9223372036854775808'']]
                      else [])\<rparr>"

text \<open>
  Two tables \<^verbatim>\<open>A\<close> and \<^verbatim>\<open>B\<close> of one row each; the descriptor of \<^verbatim>\<open>A\<close> is not
  valid JSON, \<^verbatim>\<open>B\<close> has none.
\<close>

definition malformed_files :: files where
  "malformed_files =
     \<lparr>listdir_tsv = [''A.tsv'', ''B.tsv''],
      schema_at = (\<lambda>p. if p = ''schemas/A.json'' then Malformed ''Expecting value''
                         else NoFile),
      csv_at = (\<lambda>p. [[''X''], [''1'']])\<rparr>"

text \<open>
  A descriptor with the columns \<^verbatim>\<open>ID\<close> and \<^verbatim>\<open>NOTE\<close>, and a table file with the
  columns \<^verbatim>\<open>ID\<close> and \<^verbatim>\<open>EXTRA\<close>: \<^verbatim>\<open>EXTRA\<close> is not in the descriptor and
  \<^verbatim>\<open>NOTE\<close> is not in the file.
\<close>

definition two_col_schema :: schema where
  "two_col_schema =
     \<lparr>description = Some ''notes'', primaryKey = Some [Some ''ID''],
      columns = Some [\<lparr>col_name = Some ''ID'', col_label = Some ''INTEGER'',
                       col_description = None\<rparr>,
                      \<lparr>col_name = Some ''NOTE'', col_label = Some ''VARCHAR'',
                       col_description = Some ''free text''\<rparr>],
      other_keys = []\<rparr>"

definition extra_column_files :: files where
  "extra_column_files =
     \<lparr>listdir_tsv = [''T.tsv''],
      schema_at = (\<lambda>p. if p = ''schemas/T.json'' then Parsed two_col_schema else NoFile),
      csv_at = (\<lambda>p. if p = ''tsv/T.tsv'' then [[''ID'', ''EXTRA''], [''7'', ''x'']] else [])\<rparr>"

text \<open>Two source files, \<^verbatim>\<open>A.tsv\<close> and \<^verbatim>\<open>A.tsv.tsv\<close>, without descriptors.\<close>

definition double_suffix_files :: files where
  "double_suffix_files =
     \<lparr>listdir_tsv = [''A.tsv.tsv'', ''A.tsv''],
      schema_at = (\<lambda>p. NoFile),
      csv_at = (\<lambda>p. if p = ''tsv/A.tsv'' then [[''X''], [''1'']]
                      else if p = ''tsv/A.tsv.tsv'' then [[''Y''], [''2'']]
                      else [])\<rparr>"

text \<open>A batch whose first and last rows hold integers beyond 64 bits.\<close>

definition first_row_overflow :: "pyval list list" where
  "first_row_overflow = [[PInt (2 ^ 63)], [PInt 1], [PInt (2 ^ 64)]]"

section \<open>Properties\<close>

subsection \<open>What the built-ins raise\<close>

lemma py_int_raises: "py_int v = Inl e \<Longrightarrow> fst e = ValueError"
  by (auto simp: py_int_def Let_def split: prod.splits if_splits)

lemma py_float_raises: "py_float v = Inl e \<Longrightarrow> fst e = ValueError"
  by (auto simp: py_float_def split: option.splits)

lemma int_of_float_raises:
  "int_of_float f = Inl e \<Longrightarrow> fst e = ValueError \<or> fst e = OverflowError"
  by (cases f) auto

lemma handled_value_overflow:
  "fst e = ValueError \<or> fst e = OverflowError \<Longrightarrow> handled_by e [ValueError, OverflowError]"
  by (auto simp: handled_by_def)

subsection \<open>The value coercer, branch by branch\<close>

lemma coerce_blank: "strip raw = [] \<Longrightarrow> coerce (Some raw) ctype = Inr PNone"
  by (simp add: coerce_def)

lemma coerce_integer_branch:
  assumes "strip raw = v" and "v \<noteq> []"
  shows "coerce (Some raw) ''INTEGER'' =
     (case py_int v of
        Inr n \<Rightarrow> Inr (PInt n)
      | Inl e \<Rightarrow>
          (case py_float v of
             Inl e' \<Rightarrow> Inr (PStr v)
           | Inr f \<Rightarrow>
               (case int_of_float f of Inl e' \<Rightarrow> Inr (PStr v) | Inr n \<Rightarrow> Inr (PInt n))))"
proof (cases "py_int v")
  case (Inl e)
  then have "handled_by e [ValueError, OverflowError]"
    by (simp add: handled_value_overflow py_int_raises)
  with Inl assms show ?thesis by (simp add: coerce_def)
next
  case (Inr n)
  with assms show ?thesis by (simp add: coerce_def)
qed

lemma numeric_try_cases:
  "numeric_try v =
     (case py_float v of
        Inl e \<Rightarrow> Inl e
      | Inr f \<Rightarrow>
          (case int_of_float f of
             Inl e \<Rightarrow> Inl e
           | Inr n \<Rightarrow>
               if float_eq_int f n \<and> CHR ''.'' \<notin> set v then Inr (PInt n)
               else Inr (PFloat f)))"
  by (simp add: numeric_try_def split: sum.splits)

lemma coerce_numeric_branch:
  assumes "strip raw = v" and "v \<noteq> []" and "ctype = ''NUMERIC'' \<or> ctype = ''REAL''"
  shows "coerce (Some raw) ctype =
     (case py_float v of
        Inl e \<Rightarrow> Inr (PStr v)
      | Inr f \<Rightarrow>
          (case int_of_float f of
             Inl e \<Rightarrow> Inr (PStr v)
           | Inr n \<Rightarrow>
               if float_eq_int f n \<and> CHR ''.'' \<notin> set v then Inr (PInt n)
               else Inr (PFloat f)))"
proof -
  have c: "coerce (Some raw) ctype =
      (case numeric_try v of
         Inr r \<Rightarrow> Inr r
       | Inl e \<Rightarrow> if handled_by e [ValueError, OverflowError] then Inr (PStr v) else Inl e)"
    using assms by (auto simp add: coerce_def)
  show ?thesis
  proof (cases "py_float v")
    case (Inl e)
    then have "numeric_try v = Inl e" by (simp add: numeric_try_cases)
    moreover from Inl have "handled_by e [ValueError, OverflowError]"
      by (simp add: handled_value_overflow py_float_raises)
    ultimately show ?thesis using Inl c by simp
  next
    case f: (Inr f)
    show ?thesis
    proof (cases "int_of_float f")
      case (Inl e)
      with f have "numeric_try v = Inl e" by (simp add: numeric_try_cases)
      moreover from Inl have "handled_by e [ValueError, OverflowError]"
        by (simp add: handled_value_overflow int_of_float_raises)
      ultimately show ?thesis using Inl f c by simp
    next
      case (Inr n)
      with f c show ?thesis by (simp add: numeric_try_cases)
    qed
  qed
qed

lemma coerce_text_branch:
  assumes "strip raw = v" and "v \<noteq> []"
    and "ctype \<noteq> ''INTEGER''" and "ctype \<noteq> ''NUMERIC''" and "ctype \<noteq> ''REAL''"
  shows "coerce (Some raw) ctype = Inr (PStr v)"
  using assms by (simp add: coerce_def)

lemma coerce_returns: "\<exists>r. coerce value ctype = Inr r"
proof (cases "value")
  case None
  then show ?thesis by (simp add: coerce_def)
next
  case (Some raw)
  show ?thesis
  proof (cases "strip raw = []")
    case True
    with Some show ?thesis by (simp add: coerce_blank)
  next
    case False
    consider "ctype = ''INTEGER''" | "ctype = ''NUMERIC'' \<or> ctype = ''REAL''"
      | "ctype \<noteq> ''INTEGER''" "ctype \<noteq> ''NUMERIC''" "ctype \<noteq> ''REAL''"
      by blast
    then show ?thesis
    proof cases
      case 1
      then show ?thesis using False Some
        by (simp add: coerce_integer_branch split: sum.splits)
    next
      case 2
      then show ?thesis using Some coerce_numeric_branch [OF refl False 2]
        by (simp split: sum.splits)
    next
      case 3
      then show ?thesis using False Some by (simp add: coerce_text_branch)
    qed
  qed
qed

text \<open>
  Claim C5.  \<^verbatim>\<open>coerce\<close> never raises: for every cell (a text or \<^verbatim>\<open>None\<close>) and every
  type category it returns a value.  For an absent cell and for the empty text that value
  is \<^verbatim>\<open>None\<close>, whatever the type category.
\<close>

theorem coerce_total:
  "(\<exists>r. coerce value ctype = Inr r)
   \<and> coerce None ctype = Inr PNone
   \<and> coerce (Some []) ctype = Inr PNone"
proof -
  have "strip [] = []" by (simp add: strip_def rstrip_with_def)
  then have "coerce (Some []) ctype = Inr PNone" by (rule coerce_blank)
  moreover have "coerce None ctype = Inr PNone" by (simp add: coerce_def)
  ultimately show ?thesis using coerce_returns by blast
qed

theorem coerce_total_witness:
  "(\<exists>r. coerce (Some ''abc'') ''INTEGER'' = Inr r)
   \<and> coerce None ''INTEGER'' = Inr PNone
   \<and> coerce (Some []) ''INTEGER'' = Inr PNone"
  using coerce_total [of "Some ''abc''" "''INTEGER''"] by simp

text \<open>
  Claim C4.  For an \<^verbatim>\<open>INTEGER\<close> column \<^verbatim>\<open>coerce\<close> trims the text, then returns
  \<^verbatim>\<open>int\<close> of it; when \<^verbatim>\<open>int\<close> fails it returns \<^verbatim>\<open>int(float(...))\<close> of it; when that
  fails too it returns the trimmed text.  It never raises.  \<^verbatim>\<open>coerce("  42  ", INTEGER)\<close>
  is the integer 42 and \<^verbatim>\<open>coerce("abc", INTEGER)\<close> is the text \<^verbatim>\<open>abc\<close>.
\<close>

theorem coerce_INTEGER:
  "(strip raw \<noteq> [] \<longrightarrow>
      coerce (Some raw) ''INTEGER'' =
        (case py_int (strip raw) of
           Inr n \<Rightarrow> Inr (PInt n)
         | Inl e \<Rightarrow>
             (case py_float (strip raw) of
                Inl e' \<Rightarrow> Inr (PStr (strip raw))
              | Inr f \<Rightarrow>
                  (case int_of_float f of
                     Inl e' \<Rightarrow> Inr (PStr (strip raw))
                   | Inr n \<Rightarrow> Inr (PInt n)))))
   \<and> (\<exists>r. coerce (Some raw) ''INTEGER'' = Inr r)
   \<and> coerce (Some ''  42  '') ''INTEGER'' = Inr (PInt 42)
   \<and> coerce (Some ''abc'') ''INTEGER'' = Inr (PStr ''abc'')"
proof -
  have "coerce (Some ''  42  '') ''INTEGER'' = Inr (PInt 42)" by code_simp
  moreover have "coerce (Some ''abc'') ''INTEGER'' = Inr (PStr ''abc'')" by code_simp
  moreover have "\<exists>r. coerce (Some raw) ''INTEGER'' = Inr r" by (rule coerce_returns)
  ultimately show ?thesis using coerce_integer_branch [OF refl, of raw] by blast
qed

theorem coerce_INTEGER_witness:
  "strip '' 3.7 '' \<noteq> [] \<and> coerce (Some '' 3.7 '') ''INTEGER'' = Inr (PInt 3)"
proof -
  have h: "strip '' 3.7 '' \<noteq> []" by code_simp
  have r: "(case py_int (strip '' 3.7 '') of
              Inr n \<Rightarrow> Inr (PInt n)
            | Inl e \<Rightarrow>
                (case py_float (strip '' 3.7 '') of
                   Inl e' \<Rightarrow> Inr (PStr (strip '' 3.7 ''))
                 | Inr f \<Rightarrow>
                     (case int_of_float f of
                        Inl e' \<Rightarrow> Inr (PStr (strip '' 3.7 ''))
                      | Inr n \<Rightarrow> Inr (PInt n))))
           = (Inr (PInt 3) :: exn + pyval)"
    by code_simp
  from coerce_INTEGER [of "'' 3.7 ''"] h r show ?thesis by simp
qed

text \<open>
  Claim C2, as the code has it.  For a \<^verbatim>\<open>NUMERIC\<close> or \<^verbatim>\<open>REAL\<close> column \<^verbatim>\<open>coerce\<close>
  reads the trimmed text as a float.  When that fails it returns the trimmed text, and so
  it does when the float is an infinity or a NaN, which has no integer value.  For a finite
  float it returns the integer when the float is integral and the text has no decimal
  point, else the float.  So \<^verbatim>\<open>coerce("3.0", NUMERIC)\<close> is the float 3.0, since the text
  has a decimal point; \<^verbatim>\<open>coerce("3", NUMERIC)\<close> is the integer 3 and
  \<^verbatim>\<open>coerce("3.50", NUMERIC)\<close> the float 3.5.
\<close>

theorem coerce_NUMERIC:
  "((ctype = ''NUMERIC'' \<or> ctype = ''REAL'') \<and> strip raw \<noteq> [] \<longrightarrow>
      coerce (Some raw) ctype =
        (case py_float (strip raw) of
           Inl e \<Rightarrow> Inr (PStr (strip raw))
         | Inr f \<Rightarrow>
             (case int_of_float f of
                Inl e \<Rightarrow> Inr (PStr (strip raw))
              | Inr n \<Rightarrow>
                  if float_eq_int f n \<and> CHR ''.'' \<notin> set (strip raw) then Inr (PInt n)
                  else Inr (PFloat f))))
   \<and> coerce (Some ''3.0'') ''NUMERIC'' = Inr (PFloat (Finite 3))
   \<and> coerce (Some ''3'') ''NUMERIC'' = Inr (PInt 3)
   \<and> coerce (Some ''3.50'') ''NUMERIC'' = Inr (PFloat (Finite (7 / 2)))"
proof -
  have "coerce (Some ''3.0'') ''NUMERIC'' = Inr (PFloat (Finite 3))" by code_simp
  moreover have "coerce (Some ''3'') ''NUMERIC'' = Inr (PInt 3)" by code_simp
  moreover have "coerce (Some ''3.50'') ''NUMERIC'' = Inr (PFloat (Finite (7 / 2)))"
    by code_simp
  ultimately show ?thesis using coerce_numeric_branch [OF refl, of raw ctype] by blast
qed

theorem coerce_NUMERIC_witness:
  "strip '' nan '' \<noteq> [] \<and> coerce (Some '' nan '') ''REAL'' = Inr (PStr ''nan'')"
proof -
  have h: "strip '' nan '' \<noteq> []" by code_simp
  have r: "(case py_float (strip '' nan '') of
              Inl e \<Rightarrow> Inr (PStr (strip '' nan ''))
            | Inr f \<Rightarrow>
                (case int_of_float f of
                   Inl e \<Rightarrow> Inr (PStr (strip '' nan ''))
                 | Inr n \<Rightarrow>
                     if float_eq_int f n \<and> CHR ''.'' \<notin> set (strip '' nan '') then Inr (PInt n)
                     else Inr (PFloat f)))
           = (Inr (PStr ''nan'') :: exn + pyval)"
    by code_simp
  from coerce_NUMERIC [of "''REAL''" "'' nan ''"] h r show ?thesis by simp
qed

text \<open>
  The claim as the specification words it fails twice: \<^verbatim>\<open>coerce("3.0", NUMERIC)\<close> is
  not the integer 3, and a text that reads as an infinite float comes back as text, not as
  a float.
\<close>

theorem coerce_NUMERIC_counterexample:
  "coerce (Some ''3.0'') ''NUMERIC'' \<noteq> Inr (PInt 3)
   \<and> py_float ''inf'' = Inr PosInf
   \<and> coerce (Some ''inf'') ''NUMERIC'' = Inr (PStr ''inf'')"
proof -
  have "coerce (Some ''3.0'') ''NUMERIC'' = Inr (PFloat (Finite 3))" by code_simp
  then have "coerce (Some ''3.0'') ''NUMERIC'' \<noteq> Inr (PInt 3)" by simp
  moreover have "py_float ''inf'' = Inr PosInf" by code_simp
  moreover have "coerce (Some ''inf'') ''NUMERIC'' = Inr (PStr ''inf'')" by code_simp
  ultimately show ?thesis by blast
qed

text \<open>
  Claim C6.  The type map sends \<^verbatim>\<open>VARCHAR\<close> to \<^verbatim>\<open>TEXT\<close>, \<^verbatim>\<open>NUMERIC\<close> to
  \<^verbatim>\<open>NUMERIC\<close>, \<^verbatim>\<open>INTEGER\<close> to \<^verbatim>\<open>INTEGER\<close>, \<^verbatim>\<open>FLOAT\<close> to \<^verbatim>\<open>REAL\<close>, and
  \<^verbatim>\<open>DATETIME\<close> with its three variants to \<^verbatim>\<open>TEXT\<close>.  Every other label, the empty one
  included, goes to \<^verbatim>\<open>TEXT\<close>, and so does a column without a label.  The lookup is
  total: its result is always one of the four categories.
\<close>

theorem type_map_get_total:
  "type_map_get ''VARCHAR'' = ''TEXT''
   \<and> type_map_get ''NUMERIC'' = ''NUMERIC''
   \<and> type_map_get ''INTEGER'' = ''INTEGER''
   \<and> type_map_get ''FLOAT'' = ''REAL''
   \<and> type_map_get ''DATETIME'' = ''TEXT''
   \<and> type_map_get ''DATETIME (Local)'' = ''TEXT''
   \<and> type_map_get ''DATETIME (UTC)'' = ''TEXT''
   \<and> type_map_get ''DATETIME (Attached)'' = ''TEXT''
   \<and> (label \<notin> {''VARCHAR'', ''NUMERIC'', ''INTEGER'', ''FLOAT'', ''DATETIME'',
                  ''DATETIME (Local)'', ''DATETIME (UTC)'', ''DATETIME (Attached)''}
        \<longrightarrow> type_map_get label = ''TEXT'')
   \<and> type_map_get [] = ''TEXT''
   \<and> (col_label col = None \<longrightarrow> column_type col = ''TEXT'')
   \<and> type_map_get label \<in> {''TEXT'', ''NUMERIC'', ''INTEGER'', ''REAL''}"
proof -
  have "strip [] = []" by (simp add: strip_def rstrip_with_def)
  then have "col_label col = None \<longrightarrow> column_type col = ''TEXT''"
    by (simp add: column_type_def get_or_def type_map_get_def TYPE_MAP_def)
  then show ?thesis by (simp add: type_map_get_def TYPE_MAP_def)
qed

theorem type_map_get_total_witness:
  "''BLOB'' \<notin> {''VARCHAR'', ''NUMERIC'', ''INTEGER'', ''FLOAT'', ''DATETIME'',
                ''DATETIME (Local)'', ''DATETIME (UTC)'', ''DATETIME (Attached)''}
   \<and> type_map_get ''BLOB'' = ''TEXT''
   \<and> col_label \<lparr>col_name = Some ''ID'', col_label = None, col_description = None\<rparr> = None
   \<and> column_type \<lparr>col_name = Some ''ID'', col_label = None, col_description = None\<rparr> = ''TEXT''"
  using type_map_get_total
    [of "''BLOB''" "\<lparr>col_name = Some ''ID'', col_label = None, col_description = None\<rparr>"]
  by simp

subsection \<open>The fallback loop and the counters\<close>

lemma fallback_loop_inserted:
  "fst (fallback_loop conn name sql xs (ins, errs)) =
     ins + length (filter (\<lambda>(i, vals). row_error conn sql i vals = None) xs)"
proof (induction xs arbitrary: ins errs)
  case Nil
  then show ?case by simp
next
  case (Cons x xs)
  obtain i vals where x: "x = (i, vals)" by (cases x)
  show ?case
  proof (cases "row_error conn sql i vals")
    case None
    with x Cons.IH [of "ins + 1" errs] show ?thesis by simp
  next
    case (Some e2)
    with x Cons.IH [of ins] show ?thesis by simp
  qed
qed

lemma fallback_loop_later_rows:
  assumes "\<forall>p \<in> set xs. fst p \<noteq> 0"
  shows "snd (fallback_loop conn name sql xs (ins, errs)) = errs"
  using assms
proof (induction xs arbitrary: ins)
  case Nil
  then show ?case by simp
next
  case (Cons x xs)
  obtain i vals where x: "x = (i, vals)" by (cases x)
  with Cons.prems have "i \<noteq> 0" by simp
  moreover from Cons have "\<And>k. snd (fallback_loop conn name sql xs (k, errs)) = errs" by simp
  ultimately show ?case using x by (simp split: option.splits)
qed

lemma enumerate_later_indices: "\<forall>p \<in> set (enumerate (Suc k) xs). fst p \<noteq> 0"
  by (simp add: in_set_enumerate_eq)

lemma fallback_loop_errors:
  "snd (fallback_loop conn name sql (enumerate 0 batch) (0, errs)) =
     errs @ (case batch of
               [] \<Rightarrow> []
             | vals # rest \<Rightarrow>
                 (case row_error conn sql 0 vals of
                    None \<Rightarrow> []
                  | Some e2 \<Rightarrow> [name @ '': INSERT row 0: '' @ e2]))"
proof (cases batch)
  case Nil
  then show ?thesis by simp
next
  case (Cons vals rest)
  then show ?thesis
    by (simp add: fallback_loop_later_rows [OF enumerate_later_indices]
        split: option.splits)
qed

lemma insert_batch_after_bulk_failure:
  assumes "bulk_error conn sql batch \<noteq> None"
  shows "insert_batch conn name sql batch st =
     st\<lparr>tables_ok := (if 0 < accepted_rows conn sql batch then tables_ok st + 1 else tables_ok st),
        total_rows := total_rows st + accepted_rows conn sql batch,
        errors := errors st @
          (case batch of
             [] \<Rightarrow> []
           | vals # rest \<Rightarrow>
               (case row_error conn sql 0 vals of
                  None \<Rightarrow> []
                | Some e2 \<Rightarrow> [name @ '': INSERT row 0: '' @ e2]))\<rparr>"
proof -
  obtain inserted errs where
    f: "fallback_loop conn name sql (enumerate 0 batch) (0, errors st) = (inserted, errs)"
    by (cases "fallback_loop conn name sql (enumerate 0 batch) (0, errors st)")
  from assms obtain m where m: "bulk_error conn sql batch = Some m" by auto
  from f fallback_loop_inserted [of conn name sql "enumerate 0 batch" 0 "errors st"]
  have i: "inserted = accepted_rows conn sql batch"
    by (simp add: accepted_rows_def m)
  from f fallback_loop_errors [of conn name sql batch "errors st"]
  have e: "errs = errors st @
          (case batch of
             [] \<Rightarrow> []
           | vals # rest \<Rightarrow>
               (case row_error conn sql 0 vals of
                  None \<Rightarrow> []
                | Some e2 \<Rightarrow> [name @ '': INSERT row 0: '' @ e2]))"
    by simp
  from m show ?thesis using f i e by (simp add: insert_batch_def)
qed

lemma insert_batch_counts:
  "total_rows (insert_batch conn name sql batch st) = total_rows st + accepted_rows conn sql batch
   \<and> tables_ok (insert_batch conn name sql batch st) \<le> tables_ok st + 1"
proof (cases "bulk_error conn sql batch")
  case None
  then show ?thesis by (simp add: insert_batch_def accepted_rows_def)
next
  case (Some m)
  then have "bulk_error conn sql batch \<noteq> None" by simp
  from insert_batch_after_bulk_failure [OF this] show ?thesis by simp
qed

lemma main_loop_body_counts:
  assumes "main_loop_body fs conn st f = Inr st'"
  shows "total_rows st' = total_rows st + table_inserted fs conn f
         \<and> tables_ok st' \<le> tables_ok st + 1"
proof (cases "prepare_table fs conn f")
  case (Inl e)
  with assms show ?thesis by (simp add: main_loop_body_def)
next
  case (Inr p)
  show ?thesis
  proof (cases p)
    case (Skipped entry)
    with Inr assms show ?thesis by (auto simp add: main_loop_body_def table_inserted_def)
  next
    case EmptyTable
    with Inr assms show ?thesis by (auto simp add: main_loop_body_def table_inserted_def)
  next
    case (Batch name sql batch)
    with Inr assms have "st' = insert_batch conn name sql batch st"
      by (simp add: main_loop_body_def)
    with Batch Inr insert_batch_counts [of conn name sql batch st]
    show ?thesis by (simp add: table_inserted_def)
  qed
qed

lemma main_loop_counts:
  assumes "main_loop fs conn fl st = Inr st'"
  shows "total_rows st' = total_rows st + sum_list (map (table_inserted fs conn) fl)
         \<and> tables_ok st' \<le> tables_ok st + length fl"
  using assms
proof (induction fl arbitrary: st)
  case Nil
  then show ?case by simp
next
  case (Cons f fl)
  from Cons.prems obtain st1 where
    b: "main_loop_body fs conn st f = Inr st1" and r: "main_loop fs conn fl st1 = Inr st'"
    by (auto split: sum.splits)
  from main_loop_body_counts [OF b] Cons.IH [OF r] show ?case by simp
qed

subsection \<open>Table definition\<close>

lemma columns_loop_result:
  assumes "columns_loop n has_pk xs (defs, names) = Inr (defs', names')"
  shows "\<exists>new_defs new_names.
           defs' = defs @ new_defs \<and> names' = names @ new_names
           \<and> map Some new_names = map (col_name \<circ> snd) xs
           \<and> length new_defs = length xs
           \<and> (\<forall>j<length xs.
                 prefix (''  '' @ quoted (new_names ! j) @ '' '' @ column_type (snd (xs ! j)))
                   (new_defs ! j))"
  using assms
proof (induction xs arbitrary: defs names)
  case Nil
  then show ?case by simp
next
  case (Cons x xs)
  obtain i col where x: "x = (i, col)" by (cases x)
  from Cons.prems x obtain cname where c: "col_name col = Some cname"
    by (cases "col_name col") auto
  define d where "d = col_def cname (column_type col)
      (if i = n - 1 \<and> \<not> has_pk then [] else '','') (esc (get_or [] (col_description col)))"
  from Cons.prems x c have
    "columns_loop n has_pk xs (defs @ [d], names @ [cname]) = Inr (defs', names')"
    by (simp add: d_def Let_def)
  from Cons.IH [OF this] obtain nd nn where
    r: "defs' = (defs @ [d]) @ nd" "names' = (names @ [cname]) @ nn"
       "map Some nn = map (col_name \<circ> snd) xs" "length nd = length xs"
       "\<forall>j<length xs. prefix (''  '' @ quoted (nn ! j) @ '' '' @ column_type (snd (xs ! j))) (nd ! j)"
    by blast
  have p: "prefix (''  '' @ quoted cname @ '' '' @ column_type col) d"
    by (simp add: d_def col_def_def)
  have "\<forall>j<length (x # xs).
          prefix (''  '' @ quoted ((cname # nn) ! j) @ '' '' @ column_type (snd ((x # xs) ! j)))
            ((d # nd) ! j)"
  proof (intro allI impI)
    fix j assume "j < length (x # xs)"
    then show "prefix (''  '' @ quoted ((cname # nn) ! j) @ '' '' @ column_type (snd ((x # xs) ! j)))
            ((d # nd) ! j)"
      using p r(5) x by (cases j) auto
  qed
  moreover have "defs' = defs @ (d # nd)" "names' = names @ (cname # nn)" using r by simp_all
  moreover have "map Some (cname # nn) = map (col_name \<circ> snd) (x # xs)" using r x c by simp
  moreover have "length (d # nd) = length (x # xs)" using r by simp
  ultimately show ?case by blast
qed

lemma create_table_sql_result:
  assumes "create_table_sql name s = Inr (col_defs, script, cols)"
  shows "map Some cols = map col_name (get_or [] (columns s))
         \<and> length col_defs = length cols
         \<and> (\<forall>i<length cols.
               prefix (''  '' @ quoted (cols ! i) @ '' '' @ column_type (get_or [] (columns s) ! i))
                 (col_defs ! i))
         \<and> (\<exists>pk. script =
                ''DROP TABLE IF EXISTS '' @ quoted name @ '';'' @ [CHR 0x0A]
                @ ''CREATE TABLE '' @ quoted name @ '' ( -- '' @ esc (get_or [] (description s))
                @ [CHR 0x0A] @ join [CHR 0x0A] col_defs @ pk @ [CHR 0x0A] @ '');'')"
proof -
  let ?cs = "get_or [] (columns s)"
  from assms obtain pk_cols where pk: "pk_columns s = Inr pk_cols"
    by (cases "pk_columns s") (auto simp: create_table_sql_def)
  from assms pk have
    l: "columns_loop (length ?cs) (pk_cols \<noteq> []) (enumerate 0 ?cs) ([], []) = Inr (col_defs, cols)"
    by (auto simp: create_table_sql_def Let_def split: sum.splits prod.splits)
  define pk where "pk = (if pk_cols \<noteq> []
                   then '','' @ [CHR 0x0A] @ ''  PRIMARY KEY (''
                        @ join '', '' (map quoted pk_cols) @ '')''
                   else [])"
  from assms pk l have e: "script =
                ''DROP TABLE IF EXISTS '' @ quoted name @ '';'' @ [CHR 0x0A]
                @ ''CREATE TABLE '' @ quoted name @ '' ( -- '' @ esc (get_or [] (description s))
                @ [CHR 0x0A] @ join [CHR 0x0A] col_defs @ pk @ [CHR 0x0A] @ '');''"
    by (simp add: create_table_sql_def Let_def pk_def)
  have sc: "\<exists>pk. script =
                ''DROP TABLE IF EXISTS '' @ quoted name @ '';'' @ [CHR 0x0A]
                @ ''CREATE TABLE '' @ quoted name @ '' ( -- '' @ esc (get_or [] (description s))
                @ [CHR 0x0A] @ join [CHR 0x0A] col_defs @ pk @ [CHR 0x0A] @ '');''"
    by (rule exI [where x = pk]) (rule e)
  from columns_loop_result [OF l] have
    a: "map Some cols = map (col_name \<circ> snd) (enumerate 0 ?cs)"
    and b: "length col_defs = length (enumerate 0 ?cs)"
    and c: "\<forall>j<length (enumerate 0 ?cs).
              prefix (''  '' @ quoted (cols ! j) @ '' '' @ column_type (snd (enumerate 0 ?cs ! j)))
                (col_defs ! j)"
    by auto
  from a have a': "map Some cols = map col_name ?cs"
    by (simp flip: map_map)
  then have len: "length cols = length ?cs"
    by (metis length_map)
  from c len have "\<forall>i<length cols.
               prefix (''  '' @ quoted (cols ! i) @ '' '' @ column_type (?cs ! i)) (col_defs ! i)"
    by (simp add: nth_enumerate_eq)
  with a' b len sc show ?thesis by simp
qed

lemma create_table_result:
  assumes "create_table conn name s = Inr cols"
  shows "\<exists>col_defs script.
           create_table_sql name s = Inr (col_defs, script, cols) \<and> ddl_error conn script = None"
  using assms
  by (auto simp: create_table_def split: sum.splits prod.splits option.splits)

lemma create_table_from_header_result:
  assumes "create_table_from_header conn name header = Inr cols"
  shows "cols = header \<and> ddl_error conn (header_create_sql name header) = None"
  using assms
  by (auto simp: create_table_from_header_def split: option.splits)

lemma header_col_defs_nth:
  "length (header_col_defs header) = length header
   \<and> (\<forall>i<length header. header_col_defs header ! i = quoted (header ! i) @ '' TEXT'')"
  by (simp add: header_col_defs_def)

subsection \<open>Building the batch\<close>

lemma mapE_Inr:
  assumes "mapE f xs = Inr ys"
  shows "length ys = length xs \<and> (\<forall>i<length xs. f (xs ! i) = Inr (ys ! i))"
  using assms
proof (induction xs arbitrary: ys)
  case Nil
  then show ?case by simp
next
  case (Cons x xs)
  from Cons.prems obtain y ys' where
    y: "f x = Inr y" and r: "mapE f xs = Inr ys'" and ys: "ys = y # ys'"
    by (auto split: sum.splits)
  from Cons.IH [OF r] have
    "length ys' = length xs" "\<forall>i<length xs. f (xs ! i) = Inr (ys' ! i)" by simp_all
  with y ys show ?case by (auto simp: nth_Cons split: nat.splits)
qed

lemma mapE_total:
  assumes "\<forall>x. \<exists>y. f x = Inr y"
  shows "\<exists>ys. mapE f xs = Inr ys"
proof (induction xs)
  case Nil
  then show ?case by simp
next
  case (Cons x xs)
  from assms obtain y where "f x = Inr y" by blast
  with Cons show ?case by auto
qed

lemma mapE_cong_set:
  assumes "\<forall>x \<in> set xs. f x = g x"
  shows "mapE f xs = mapE g xs"
  using assms by (induction xs) (auto split: sum.splits)

lemma row_values_result:
  "\<exists>vals. row_values cols types r = Inr vals"
  unfolding row_values_def by (rule mapE_total) (simp add: coerce_returns)

lemma row_values_nth:
  assumes "row_values cols types r = Inr vals"
  shows "length vals = length cols
         \<and> (\<forall>i<length cols.
               coerce (get_or (Some []) (r (cols ! i))) (get_or ''TEXT'' (types (cols ! i)))
                 = Inr (vals ! i))"
  using mapE_Inr [OF assms [unfolded row_values_def]] by simp

lemma row_values_missing:
  assumes "row_values cols types r = Inr vals" and "i < length cols" and "r (cols ! i) = None"
  shows "vals ! i = PNone"
proof -
  have "strip [] = []" by (simp add: strip_def rstrip_with_def)
  then have "coerce (Some []) (get_or ''TEXT'' (types (cols ! i))) = Inr PNone"
    by (rule coerce_blank)
  moreover from row_values_nth [OF assms(1)] assms(2) have
    "coerce (get_or (Some []) (r (cols ! i))) (get_or ''TEXT'' (types (cols ! i))) = Inr (vals ! i)"
    by blast
  ultimately show ?thesis using assms(3) by (simp add: get_or_def)
qed

lemma row_values_only_cols:
  assumes "\<forall>c \<in> set cols. r' c = r c"
  shows "row_values cols types r' = row_values cols types r"
  unfolding row_values_def by (rule mapE_cong_set) (simp add: assms)

lemma prepare_table_Batch:
  assumes "prepare_table fs conn f = Inr (Batch name sql batch)"
  shows "\<exists>sch header rows cols types.
           load_schema fs (table_name f) = Inr sch
           \<and> load_tsv_rows fs (path_join TSV_DIR f) = Inr (header, rows)
           \<and> (case truthy sch of
                Some s \<Rightarrow> col_types_loop (get_or [] (columns s)) Map.empty = Inr types
                          \<and> create_table conn name s = Inr cols
              | None \<Rightarrow> types = Map.empty \<and> create_table_from_header conn name header = Inr cols)
           \<and> name = table_name f \<and> sql = insert_sql name cols
           \<and> mapE (row_values cols types) rows = Inr batch"
proof -
  from assms obtain sch where s: "load_schema fs (table_name f) = Inr sch"
    by (cases "load_schema fs (table_name f)") (auto simp: prepare_table_def)
  from assms s obtain header rows where
    t: "load_tsv_rows fs (path_join TSV_DIR f) = Inr (header, rows)"
    by (cases "load_tsv_rows fs (path_join TSV_DIR f)") (auto simp: prepare_table_def)
  from assms s t have h: "header \<noteq> []"
    by (auto simp: prepare_table_def)
  let ?ct = "case truthy sch of
               Some s \<Rightarrow> col_types_loop (get_or [] (columns s)) Map.empty
             | None \<Rightarrow> Inr Map.empty"
  let ?cr = "case truthy sch of
               Some s \<Rightarrow> create_table conn (table_name f) s
             | None \<Rightarrow> create_table_from_header conn (table_name f) header"
  from assms s t h obtain types where ty: "?ct = Inr types"
    by (cases ?ct) (auto simp: prepare_table_def)
  from assms s t h ty obtain cols where cr: "?cr = Inr cols"
    by (cases ?cr) (auto simp: prepare_table_def)
  from assms s t h ty cr have
    r: "name = table_name f" "sql = insert_sql name cols"
       "mapE (row_values cols types) rows = Inr batch"
    by (auto simp: prepare_table_def Let_def split: if_splits sum.splits)
  from ty cr r(1) have x: "case truthy sch of
                Some s \<Rightarrow> col_types_loop (get_or [] (columns s)) Map.empty = Inr types
                          \<and> create_table conn name s = Inr cols
              | None \<Rightarrow> types = Map.empty \<and> create_table_from_header conn name header = Inr cols"
    by (auto split: option.splits)
  show ?thesis
    by (rule exI [where x = sch], rule exI [where x = header], rule exI [where x = rows],
        rule exI [where x = cols], rule exI [where x = types])
      (simp add: s t x r)
qed

subsection \<open>Concrete runs\<close>

lemma overflow_run:
  "main overflow_files int64_db = Inr \<lparr>tables_ok = 1, total_rows = 1, errors = []\<rparr>"
  by code_simp

lemma overflow_batch:
  "prepare_table overflow_files int64_db ''T.tsv'' =
     Inr (Batch ''T'' (insert_sql ''T'' [''ID'']) [[PInt 1], [PInt (2 ^ 63)]])"
  by code_simp

lemma overflow_table_inserted: "table_inserted overflow_files int64_db ''T.tsv'' = 1"
  by code_simp

text \<open>
  Claim C9.  When a run ends, the total of rows it reports is the sum, over the source
  files, of the rows inserted for each, and the count of tables reported as OK is at most
  the number of source files.
\<close>

theorem main_totals:
  assumes "main fs conn = Inr st"
  shows "total_rows st = sum_list (map (table_inserted fs conn) (tsv_files fs))
         \<and> tables_ok st \<le> length (tsv_files fs)"
  using main_loop_counts
    [of fs conn "tsv_files fs" "\<lparr>tables_ok = 0, total_rows = 0, errors = []\<rparr>" st] assms
  by (simp add: main_def)

theorem main_totals_witness:
  "main overflow_files int64_db = Inr \<lparr>tables_ok = 1, total_rows = 1, errors = []\<rparr>
   \<and> tsv_files overflow_files = [''T.tsv'']
   \<and> table_inserted overflow_files int64_db ''T.tsv'' = 1
   \<and> total_rows \<lparr>tables_ok = 1, total_rows = 1, errors = []\<rparr>
       = sum_list (map (table_inserted overflow_files int64_db) (tsv_files overflow_files))
   \<and> tables_ok \<lparr>tables_ok = 1, total_rows = 1, errors = []\<rparr>
       \<le> length (tsv_files overflow_files)"
proof -
  have "tsv_files overflow_files = [''T.tsv'']" by code_simp
  with main_totals [OF overflow_run] overflow_run overflow_table_inserted
  show ?thesis by simp
qed

text \<open>
  Claim C3, as the code has it.  When the bulk insert of a batch fails, the rows are
  inserted one at a time and a failing row does not stop the loop: the total grows by the
  number of rows that the database accepts, and the table counts as OK when there is at
  least one.  The error list gets one entry, and only when the row at index 0 fails; a
  failure of any later row adds nothing to it, whether or not row 0 failed.
\<close>

theorem fallback_first_row_only:
  assumes "bulk_error conn sql batch \<noteq> None"
  shows "insert_batch conn name sql batch st =
     st\<lparr>tables_ok :=
          (if 0 < accepted_rows conn sql batch then tables_ok st + 1 else tables_ok st),
        total_rows := total_rows st + accepted_rows conn sql batch,
        errors := errors st @
          (case batch of
             [] \<Rightarrow> []
           | vals # rest \<Rightarrow>
               (case row_error conn sql 0 vals of
                  None \<Rightarrow> []
                | Some e2 \<Rightarrow> [name @ '': INSERT row 0: '' @ e2]))\<rparr>
   \<and> accepted_rows conn sql batch =
       length (filter (\<lambda>(i, vals). row_error conn sql i vals = None) (enumerate 0 batch))"
proof -
  from assms obtain m where "bulk_error conn sql batch = Some m" by auto
  then have "accepted_rows conn sql batch =
       length (filter (\<lambda>(i, vals). row_error conn sql i vals = None) (enumerate 0 batch))"
    by (simp add: accepted_rows_def)
  with insert_batch_after_bulk_failure [OF assms] show ?thesis by simp
qed

theorem fallback_first_row_only_witness:
  "bulk_error int64_db ''q'' first_row_overflow \<noteq> None
   \<and> insert_batch int64_db ''T'' ''q'' first_row_overflow
        \<lparr>tables_ok = 0, total_rows = 0, errors = []\<rparr>
      = \<lparr>tables_ok = 1, total_rows = 1, errors = [''T: INSERT row 0: '' @ TOO_LARGE]\<rparr>"
proof -
  have h: "bulk_error int64_db ''q'' first_row_overflow \<noteq> None" by code_simp
  have a: "accepted_rows int64_db ''q'' first_row_overflow = 1" by code_simp
  have r: "row_error int64_db ''q'' 0 [PInt (2 ^ 63)] = Some TOO_LARGE" by code_simp
  from fallback_first_row_only
    [OF h, of "''T''" "\<lparr>tables_ok = 0, total_rows = 0, errors = []\<rparr>"] a r h
  show ?thesis by (simp add: first_row_overflow_def)
qed

text \<open>
  The claim as the specification words it fails: in the run over \<open>overflow_files\<close> the
  bulk insert fails, the first failing row is the row at index 1, and the error list stays
  empty.
\<close>

theorem fallback_first_row_only_counterexample:
  "prepare_table overflow_files int64_db ''T.tsv'' =
     Inr (Batch ''T'' (insert_sql ''T'' [''ID'']) [[PInt 1], [PInt (2 ^ 63)]])
   \<and> bulk_error int64_db (insert_sql ''T'' [''ID'']) [[PInt 1], [PInt (2 ^ 63)]] = Some TOO_LARGE
   \<and> row_error int64_db (insert_sql ''T'' [''ID'']) 0 [PInt 1] = None
   \<and> row_error int64_db (insert_sql ''T'' [''ID'']) 1 [PInt (2 ^ 63)] = Some TOO_LARGE
   \<and> main overflow_files int64_db = Inr \<lparr>tables_ok = 1, total_rows = 1, errors = []\<rparr>"
proof -
  have "bulk_error int64_db (insert_sql ''T'' [''ID'']) [[PInt 1], [PInt (2 ^ 63)]]
          = Some TOO_LARGE"
    by (simp add: int64_db_def fits_int64_def)
  moreover have "row_error int64_db (insert_sql ''T'' [''ID'']) 0 [PInt 1] = None"
    by (simp add: int64_db_def fits_int64_def)
  moreover have "row_error int64_db (insert_sql ''T'' [''ID'']) 1 [PInt (2 ^ 63)]
          = Some TOO_LARGE"
    by (simp add: int64_db_def fits_int64_def)
  ultimately show ?thesis using overflow_run overflow_batch by simp
qed

text \<open>
  Claim C7.  With a descriptor, the column list that table definition returns is the list
  of the descriptor's column names in the descriptor's order, and the lines of the DDL name
  the same columns, with their mapped types, in that order.  Without one, the returned
  list is the header; the statement has one definition per header field, in header order,
  each of the form \<^verbatim>\<open>"name" TEXT\<close>, and nothing else, so no primary key.
\<close>

theorem column_order:
  "(create_table conn name s = Inr cols \<longrightarrow>
      map Some cols = map col_name (get_or [] (columns s))
      \<and> (\<exists>col_defs script.
            create_table_sql name s = Inr (col_defs, script, cols)
            \<and> ddl_error conn script = None
            \<and> length col_defs = length cols
            \<and> (\<forall>i<length cols.
                  prefix (''  '' @ quoted (cols ! i) @ '' ''
                          @ column_type (get_or [] (columns s) ! i))
                    (col_defs ! i))
            \<and> (\<exists>pk. script =
                  ''DROP TABLE IF EXISTS '' @ quoted name @ '';'' @ [CHR 0x0A]
                  @ ''CREATE TABLE '' @ quoted name @ '' ( -- ''
                  @ esc (get_or [] (description s))
                  @ [CHR 0x0A] @ join [CHR 0x0A] col_defs @ pk @ [CHR 0x0A] @ '');'')))
   \<and> (create_table_from_header conn name header = Inr cols \<longrightarrow>
        cols = header
        \<and> ddl_error conn (header_create_sql name header) = None
        \<and> header_create_sql name header =
            ''CREATE TABLE '' @ quoted name @ '' ('' @ join '', '' (header_col_defs header) @ '')''
        \<and> length (header_col_defs header) = length header
        \<and> (\<forall>i<length header. header_col_defs header ! i = quoted (header ! i) @ '' TEXT''))"
proof (intro conjI impI)
  assume a: "create_table conn name s = Inr cols"
  from create_table_result [OF a] obtain col_defs script where
    r: "create_table_sql name s = Inr (col_defs, script, cols)" "ddl_error conn script = None"
    by blast
  from create_table_sql_result [OF r(1)]
  show "map Some cols = map col_name (get_or [] (columns s))" by blast
  from create_table_sql_result [OF r(1)] r
  show "\<exists>col_defs script.
            create_table_sql name s = Inr (col_defs, script, cols)
            \<and> ddl_error conn script = None
            \<and> length col_defs = length cols
            \<and> (\<forall>i<length cols.
                  prefix (''  '' @ quoted (cols ! i) @ '' ''
                          @ column_type (get_or [] (columns s) ! i))
                    (col_defs ! i))
            \<and> (\<exists>pk. script =
                  ''DROP TABLE IF EXISTS '' @ quoted name @ '';'' @ [CHR 0x0A]
                  @ ''CREATE TABLE '' @ quoted name @ '' ( -- ''
                  @ esc (get_or [] (description s))
                  @ [CHR 0x0A] @ join [CHR 0x0A] col_defs @ pk @ [CHR 0x0A] @ '');'')"
    by blast
next
  assume b: "create_table_from_header conn name header = Inr cols"
  from create_table_from_header_result [OF b]
  show "cols = header" "ddl_error conn (header_create_sql name header) = None" by simp_all
next
  show "header_create_sql name header =
            ''CREATE TABLE '' @ quoted name @ '' ('' @ join '', '' (header_col_defs header) @ '')''"
    by (simp add: header_create_sql_def)
next
  show "length (header_col_defs header) = length header" by (simp add: header_col_defs_nth)
next
  show "\<forall>i<length header. header_col_defs header ! i = quoted (header ! i) @ '' TEXT''"
    by (simp add: header_col_defs_nth)
qed

theorem column_order_witness:
  "create_table int64_db ''T'' two_col_schema = Inr [''ID'', ''NOTE'']
   \<and> map Some [''ID'', ''NOTE''] = map col_name (get_or [] (columns two_col_schema))
   \<and> create_table_from_header int64_db ''T'' [''ID'', ''EXTRA''] = Inr [''ID'', ''EXTRA'']
   \<and> ddl_error int64_db (header_create_sql ''T'' [''ID'', ''EXTRA'']) = None"
proof -
  have a: "create_table int64_db ''T'' two_col_schema = Inr [''ID'', ''NOTE'']" by code_simp
  have b: "create_table_from_header int64_db ''T'' [''ID'', ''EXTRA''] = Inr [''ID'', ''EXTRA'']"
    by code_simp
  from column_order [of int64_db "''T''" two_col_schema "[''ID'', ''NOTE'']"] a
  have "map Some [''ID'', ''NOTE''] = map col_name (get_or [] (columns two_col_schema))"
    by blast
  moreover
  from column_order [of int64_db "''T''" _ "[''ID'', ''EXTRA'']" "[''ID'', ''EXTRA'']"] b
  have "ddl_error int64_db (header_create_sql ''T'' [''ID'', ''EXTRA'']) = None"
    by blast
  ultimately show ?thesis using a b by blast
qed

text \<open>
  Claim C10.  Every tuple of a batch is built from the authoritative column list alone,
  which with a descriptor is the list of the descriptor's column names: the tuple has one
  value per listed column, in order; a listed column that the row's dictionary lacks
  gives \<^verbatim>\<open>None\<close>; and the tuple is the same for every row that agrees with this one on
  the listed columns, so a column of the file that the descriptor does not list leaves no
  trace.
\<close>

theorem batch_positional:
  assumes "prepare_table fs conn f = Inr (Batch name sql batch)"
  shows "\<exists>sch header rows cols types.
           load_schema fs (table_name f) = Inr sch
           \<and> load_tsv_rows fs (path_join TSV_DIR f) = Inr (header, rows)
           \<and> (case truthy sch of
                Some s \<Rightarrow> map Some cols = map col_name (get_or [] (columns s))
              | None \<Rightarrow> cols = header)
           \<and> length batch = length rows
           \<and> (\<forall>j<length rows.
                 row_values cols types (rows ! j) = Inr (batch ! j)
                 \<and> length (batch ! j) = length cols
                 \<and> (\<forall>i<length cols. (rows ! j) (cols ! i) = None \<longrightarrow> batch ! j ! i = PNone)
                 \<and> (\<forall>r'. (\<forall>c \<in> set cols. r' c = (rows ! j) c)
                          \<longrightarrow> row_values cols types r' = Inr (batch ! j)))"
proof -
  from prepare_table_Batch [OF assms] obtain sch header rows cols types where
    s: "load_schema fs (table_name f) = Inr sch"
    and t: "load_tsv_rows fs (path_join TSV_DIR f) = Inr (header, rows)"
    and c: "case truthy sch of
                Some s \<Rightarrow> col_types_loop (get_or [] (columns s)) Map.empty = Inr types
                          \<and> create_table conn name s = Inr cols
              | None \<Rightarrow> types = Map.empty \<and> create_table_from_header conn name header = Inr cols"
    and m: "mapE (row_values cols types) rows = Inr batch"
    by blast
  have c': "case truthy sch of
                Some s \<Rightarrow> map Some cols = map col_name (get_or [] (columns s))
              | None \<Rightarrow> cols = header"
  proof (cases "truthy sch")
    case None
    with c show ?thesis by (auto dest: create_table_from_header_result)
  next
    case (Some s)
    with c have "create_table conn name s = Inr cols" by simp
    from create_table_result [OF this] create_table_sql_result Some show ?thesis by auto
  qed
  from mapE_Inr [OF m] have
    l: "length batch = length rows"
    and n: "\<forall>j<length rows. row_values cols types (rows ! j) = Inr (batch ! j)" by simp_all
  have "\<forall>j<length rows.
                 row_values cols types (rows ! j) = Inr (batch ! j)
                 \<and> length (batch ! j) = length cols
                 \<and> (\<forall>i<length cols. (rows ! j) (cols ! i) = None \<longrightarrow> batch ! j ! i = PNone)
                 \<and> (\<forall>r'. (\<forall>c \<in> set cols. r' c = (rows ! j) c)
                          \<longrightarrow> row_values cols types r' = Inr (batch ! j))"
  proof (intro allI impI)
    fix j assume "j < length rows"
    with n have v: "row_values cols types (rows ! j) = Inr (batch ! j)" by simp
    show "row_values cols types (rows ! j) = Inr (batch ! j)
                 \<and> length (batch ! j) = length cols
                 \<and> (\<forall>i<length cols. (rows ! j) (cols ! i) = None \<longrightarrow> batch ! j ! i = PNone)
                 \<and> (\<forall>r'. (\<forall>c \<in> set cols. r' c = (rows ! j) c)
                          \<longrightarrow> row_values cols types r' = Inr (batch ! j))"
    proof (intro conjI allI impI)
      show "row_values cols types (rows ! j) = Inr (batch ! j)" by (rule v)
      show "length (batch ! j) = length cols" using row_values_nth [OF v] by simp
    next
      fix i assume "i < length cols" and "(rows ! j) (cols ! i) = None"
      then show "batch ! j ! i = PNone" by (rule row_values_missing [OF v])
    next
      fix r' assume "\<forall>c \<in> set cols. r' c = (rows ! j) c"
      from row_values_only_cols [OF this] v
      show "row_values cols types r' = Inr (batch ! j)" by simp
    qed
  qed
  then show ?thesis
    by (intro exI [where x = sch] exI [where x = header] exI [where x = rows]
        exI [where x = cols] exI [where x = types])
      (simp add: s t c' l)
qed

theorem batch_positional_witness:
  "prepare_table extra_column_files int64_db ''T.tsv'' =
     Inr (Batch ''T'' (insert_sql ''T'' [''ID'', ''NOTE'']) [[PInt 7, PNone]])
   \<and> (\<exists>sch header rows cols types.
         load_schema extra_column_files (table_name ''T.tsv'') = Inr sch
         \<and> load_tsv_rows extra_column_files (path_join TSV_DIR ''T.tsv'') = Inr (header, rows)
         \<and> (case truthy sch of
              Some s \<Rightarrow> map Some cols = map col_name (get_or [] (columns s))
            | None \<Rightarrow> cols = header)
         \<and> length [[PInt 7, PNone]] = length rows
         \<and> (\<forall>j<length rows.
               row_values cols types (rows ! j) = Inr ([[PInt 7, PNone]] ! j)
               \<and> length ([[PInt 7, PNone]] ! j) = length cols
               \<and> (\<forall>i<length cols.
                     (rows ! j) (cols ! i) = None \<longrightarrow> [[PInt 7, PNone]] ! j ! i = PNone)
               \<and> (\<forall>r'. (\<forall>c \<in> set cols. r' c = (rows ! j) c)
                        \<longrightarrow> row_values cols types r' = Inr ([[PInt 7, PNone]] ! j))))"
proof -
  have h: "prepare_table extra_column_files int64_db ''T.tsv'' =
     Inr (Batch ''T'' (insert_sql ''T'' [''ID'', ''NOTE'']) [[PInt 7, PNone]])"
    by code_simp
  from batch_positional [OF h] h show ?thesis by (rule_tac conjI)
qed

subsection \<open>Where the code departs from its own design\<close>

text \<open>
  A malformed descriptor for any of the source files ends the run with an exception,
  whatever the other files and the database do.
\<close>

lemma load_schema_malformed:
  assumes "schema_at fs (path_join SCHEMA_DIR (table_name f @ ''.json'')) = Malformed msg"
  shows "prepare_table fs conn f = Inl (JSONDecodeError, msg)"
  using assms by (simp add: prepare_table_def load_schema_def)

lemma main_loop_malformed:
  assumes "f \<in> set fl"
    and "schema_at fs (path_join SCHEMA_DIR (table_name f @ ''.json'')) = Malformed msg"
  shows "\<exists>e. main_loop fs conn fl st = Inl e"
  using assms(1)
proof (induction fl arbitrary: st)
  case Nil
  then show ?case by simp
next
  case (Cons g fl)
  show ?case
  proof (cases "main_loop_body fs conn st g")
    case (Inl e)
    then show ?thesis by simp
  next
    case (Inr st1)
    have "g \<noteq> f"
    proof
      assume "g = f"
      with load_schema_malformed [OF assms(2), of conn] Inr show False
        by (simp add: main_loop_body_def)
    qed
    with Cons.prems have "f \<in> set fl" by simp
    from Cons.IH [OF this, of st1] Inr show ?thesis by simp
  qed
qed

lemma malformed_never_completes:
  assumes "f \<in> set (tsv_files fs)"
    and "schema_at fs (path_join SCHEMA_DIR (table_name f @ ''.json'')) = Malformed msg"
  shows "\<exists>e. main fs conn = Inl e"
  unfolding main_def using assms by (rule main_loop_malformed)

text \<open>
  Claim C1.  A descriptor that is present but not valid JSON should cost its own table
  only.  In the code \<^verbatim>\<open>load_schema\<close> is called outside every \<^verbatim>\<open>try\<close>, so the
  \<^verbatim>\<open>JSONDecodeError\<close> leaves \<^verbatim>\<open>main\<close>: over \<open>malformed_files\<close> the run ends with
  the exception, nothing is recorded and table \<^verbatim>\<open>B\<close> is never loaded.  The same files
  without the malformed descriptor load both tables.
\<close>

theorem malformed_descriptor_aborts:
  "main malformed_files int64_db = Inl (JSONDecodeError, ''Expecting value'')
   \<and> main (malformed_files\<lparr>schema_at := (\<lambda>p. NoFile)\<rparr>) int64_db
       = Inr \<lparr>tables_ok = 2, total_rows = 2, errors = []\<rparr>"
proof -
  have "main malformed_files int64_db = Inl (JSONDecodeError, ''Expecting value'')"
    by code_simp
  moreover have "main (malformed_files\<lparr>schema_at := (\<lambda>p. NoFile)\<rparr>) int64_db
       = Inr \<lparr>tables_ok = 2, total_rows = 2, errors = []\<rparr>"
    by code_simp
  ultimately show ?thesis by blast
qed

text \<open>
  For a file name \<^verbatim>\<open>NAME.tsv\<close> in which \<^verbatim>\<open>.tsv\<close> occurs only as the suffix, the
  table name is \<^verbatim>\<open>NAME\<close>.
\<close>

lemma no_tsv_prefix:
  assumes "\<not> (\<exists>u v. c # n = u @ ''.tsv'' @ v)"
  shows "\<not> prefix ''.tsv'' (c # n @ ''.tsv'')"
proof
  assume p: "prefix ''.tsv'' (c # n @ ''.tsv'')"
  show False
  proof (cases n)
    case Nil
    with p show False by simp
  next
    case n1: (Cons a n1)
    show False
    proof (cases n1)
      case Nil
      with p n1 show False by simp
    next
      case n2: (Cons b n2)
      show False
      proof (cases n2)
        case Nil
        with p n1 n2 show False by simp
      next
        case (Cons d n3)
        with p n1 n2 have "c # n = [] @ ''.tsv'' @ n3" by simp
        with assms show False by blast
      qed
    qed
  qed
qed

lemma table_name_plain:
  assumes "\<not> (\<exists>u v. n = u @ ''.tsv'' @ v)"
  shows "table_name (n @ ''.tsv'') = n"
  using assms
proof (induction n)
  case Nil
  show ?case by (simp add: table_name_def)
next
  case (Cons c n)
  have "\<not> (\<exists>u v. n = u @ ''.tsv'' @ v)"
  proof
    assume "\<exists>u v. n = u @ ''.tsv'' @ v"
    then obtain u v where "n = u @ ''.tsv'' @ v" by blast
    then have "c # n = (c # u) @ ''.tsv'' @ v" by simp
    with Cons.prems show False by blast
  qed
  from Cons.IH [OF this] have ih: "replace ''.tsv'' [] (n @ ''.tsv'') = n"
    by (simp add: table_name_def)
  have e: "replace ''.tsv'' [] (c # (n @ ''.tsv'')) =
      (if ''.tsv'' \<noteq> [] \<and> prefix ''.tsv'' (c # (n @ ''.tsv''))
       then [] @ replace ''.tsv'' [] (drop (length ''.tsv'' - 1) (n @ ''.tsv''))
       else c # replace ''.tsv'' [] (n @ ''.tsv''))"
    by (rule replace.simps(2))
  from no_tsv_prefix [OF Cons.prems]
  have "\<not> (''.tsv'' \<noteq> [] \<and> prefix ''.tsv'' (c # (n @ ''.tsv'')))" by blast
  with e have "replace ''.tsv'' [] (c # (n @ ''.tsv'')) = c # replace ''.tsv'' [] (n @ ''.tsv'')"
    by (simp only: if_False)
  with ih show ?case by (simp only: table_name_def append_Cons)
qed

text \<open>
  Claim C8.  The table of a file \<^verbatim>\<open>NAME.tsv\<close> should be named \<^verbatim>\<open>NAME\<close>.  The code
  removes every occurrence of \<^verbatim>\<open>.tsv\<close> from the file name, not only the suffix: the
  file \<^verbatim>\<open>A.tsv.tsv\<close>, whose base name is \<^verbatim>\<open>A.tsv\<close>, is loaded into the table
  \<^verbatim>\<open>A\<close>, the table of the file \<^verbatim>\<open>A.tsv\<close>.  \<^verbatim>\<open>PATIENT_2.tsv\<close> does become
  \<^verbatim>\<open>PATIENT_2\<close>.
\<close>

theorem table_name_inner_suffix:
  "table_name ''A.tsv.tsv'' = ''A''
   \<and> table_name ''A.tsv'' = ''A''
   \<and> table_name ''PATIENT_2.tsv'' = ''PATIENT_2''
   \<and> tsv_files double_suffix_files = [''A.tsv'', ''A.tsv.tsv'']
   \<and> prepare_table double_suffix_files int64_db ''A.tsv'' =
        Inr (Batch ''A'' (insert_sql ''A'' [''X'']) [[PStr ''1'']])
   \<and> prepare_table double_suffix_files int64_db ''A.tsv.tsv'' =
        Inr (Batch ''A'' (insert_sql ''A'' [''Y'']) [[PStr ''2'']])"
proof -
  have "table_name ''A.tsv.tsv'' = ''A''" by code_simp
  moreover have "table_name ''A.tsv'' = ''A''" by code_simp
  moreover have "table_name ''PATIENT_2.tsv'' = ''PATIENT_2''" by code_simp
  moreover have "tsv_files double_suffix_files = [''A.tsv'', ''A.tsv.tsv'']" by code_simp
  moreover have "prepare_table double_suffix_files int64_db ''A.tsv'' =
        Inr (Batch ''A'' (insert_sql ''A'' [''X'']) [[PStr ''1'']])"
    by code_simp
  moreover have "prepare_table double_suffix_files int64_db ''A.tsv.tsv'' =
        Inr (Batch ''A'' (insert_sql ''A'' [''Y'']) [[PStr ''2'']])"
    by code_simp
  ultimately show ?thesis by blast
qed

end
